theory Spec2Isabelle
  imports Main
begin

section \<open>Go strings and the helpers of package strings\<close>

text \<open>
  A Go string is a sequence of bytes; \<open>string\<close> (a list of 8-bit characters) is the
  same thing. Slicing \<open>s[i:j]\<close> panics unless \<open>i \<le> j \<le> len(s)\<close>; every slice of
  the source is guarded by that test in the model.
\<close>

datatype 'a outcome = Panic | Returned 'a

text \<open>\<open>strings.HasPrefix(s, p)\<close>.\<close>

fun HasPrefix :: "string \<Rightarrow> string \<Rightarrow> bool" where
  "HasPrefix s [] = True"
| "HasPrefix [] (p # ps) = False"
| "HasPrefix (c # cs) (p # ps) = (c = p \<and> HasPrefix cs ps)"

text \<open>\<open>strings.Contains(s, sub)\<close>.\<close>

fun Contains :: "string \<Rightarrow> string \<Rightarrow> bool" where
  "Contains [] sub = (sub = [])"
| "Contains (c # cs) sub = (HasPrefix (c # cs) sub \<or> Contains cs sub)"

text \<open>
  \<open>strings.Split(s, sep)\<close> for a separator of one byte, which is what every call of
  the source passes (\<open>","\<close>, \<open>"/"\<close>, \<open>":"\<close>). The result is never empty.
\<close>

fun Split :: "string \<Rightarrow> char \<Rightarrow> string list" where
  "Split [] sep = [[]]"
| "Split (c # cs) sep =
     (if c = sep then [] # Split cs sep
      else (case Split cs sep of
              [] \<Rightarrow> [[c]]
            | f # fs \<Rightarrow> (c # f) # fs))"

section \<open>Event definitions\<close>

record EventDefinition =
  Raw :: string
  Name :: string
  Device :: string
  Description :: string

type_synonym GroupDefinition = "EventDefinition list"

text \<open>The zero value of the struct.\<close>

definition zeroEvent :: EventDefinition where
  "zeroEvent = \<lparr>Raw = [], Name = [], Device = [], Description = []\<rparr>"

text \<open>
  \<open>parseEventDefinition\<close> has the named results \<open>(eventDef, err)\<close>: a bare \<open>return\<close>
  hands back whatever both hold, so the model returns the pair. An error is its message.
  \<open>nameField[:5]\<close> panics when the field has fewer than 5 bytes, and
  \<open>nameField[6 : len(nameField)-2]\<close> panics when it has fewer than 8.
\<close>

definition parseEventDefinition :: "string \<Rightarrow> (EventDefinition \<times> string option) outcome" where
  "parseEventDefinition line =
     (let eventDef = zeroEvent\<lparr>Raw := line\<rparr>;
          fields = Split line (CHR '','')
      in if length fields = 1 then
           Returned (eventDef\<lparr>Name := fields ! 0\<rparr>, None)
         else if length fields > 1 then
           (let nameField = fields ! (length fields - 1)
            in if length nameField < 5 then Panic
               else if take 5 nameField \<noteq> ''name='' then
                 Returned (eventDef,
                   Some (''unrecognized event format, name field not found: '' @ line))
               else if length nameField < 8 then Panic
               else
                 (case Split (fields ! 0) (CHR ''/'') of
                    [] \<Rightarrow> Panic
                  | d # _ \<Rightarrow>
                      Returned (eventDef\<lparr>Name := take (length nameField - 2 - 6) (drop 6 nameField),
                                         Device := d\<rparr>, None)))
         else
           Returned (eventDef, Some (''unrecognized event format: '' @ line)))"

section \<open>Platform metadata and collection scope\<close>

text \<open>
  The struct \<open>Metadata\<close> is declared outside the files at hand; the record has the
  fields the code reads. \<open>UncoreDeviceIDs\<close> is a Go map from a device type to the
  list of its instance ids. \<open>flagScope\<close> is a package-level variable in the source
  and a parameter here.
\<close>

record Metadata =
  Architecture :: string
  Vendor :: string
  Microarchitecture :: string
  SupportsFixedTMA :: bool
  SupportsPEBS :: bool
  SupportsOCR :: bool
  SupportsUncore :: bool
  SupportsRefCycles :: bool
  PerfSupportedEvents :: string
  UncoreDeviceIDs :: "string \<rightharpoonup> int list"

datatype Scope = scopeSystem | scopeProcess | scopeCgroup

section \<open>The name abbreviator\<close>

text \<open>
  \<open>strings.Replace(s, old, new, -1)\<close>: every non-overlapping occurrence of \<open>old\<close>,
  from the left. (With an empty \<open>old\<close> Go inserts \<open>new\<close> before every character and
  at the end; the table below has no empty key.)
\<close>

fun ReplaceAll :: "string \<Rightarrow> string \<Rightarrow> string \<Rightarrow> string" where
  "ReplaceAll s [] new = new @ concat (map (\<lambda>c. c # new) s)"
| "ReplaceAll [] (p # ps) new = []"
| "ReplaceAll (c # cs) (p # ps) new =
     (if HasPrefix (c # cs) (p # ps)
      then new @ ReplaceAll (drop (length ps) cs) (p # ps) new
      else c # ReplaceAll cs (p # ps) new)"

definition abbreviations :: "(string \<times> string) list" where
  "abbreviations =
     [(''UNC_CHA_TOR_INSERTS'', ''UNCCTI''),
      (''UNC_CHA_TOR_OCCUPANCY'', ''UNCCTO''),
      (''UNC_CHA_CLOCKTICKS'', ''UNCCCT''),
      (''UNC_M_CAS_COUNT_SCH'', ''UNCMCC''),
      (''IA_MISS_DRD_REMOTE'', ''IMDR''),
      (''IA_MISS_DRD_LOCAL'', ''IMDL''),
      (''IA_MISS_LLCPREFDATA'', ''IMLP''),
      (''IA_MISS_LLCPREFRFO'', ''IMLR''),
      (''IA_MISS_DRD_PREF_LOCAL'', ''IMDPL''),
      (''IA_MISS_DRD_PREF_REMOTE'', ''IMDRP''),
      (''IA_MISS_CRD_PREF'', ''IMCP''),
      (''IA_MISS_RFO_PREF'', ''IMRP''),
      (''IA_MISS_RFO'', ''IMRF''),
      (''IA_MISS_CRD'', ''IMC''),
      (''IA_MISS_DRD'', ''IMD''),
      (''IO_PCIRDCUR'', ''IPCI''),
      (''IO_ITOMCACHENEAR'', ''IITN''),
      (''IO_ITOM'', ''IITO''),
      (''IMD_OPT'', ''IMDO'')]"

text \<open>The loop over the table: one replacement after the other, in table order.\<close>

definition abbreviateEventName :: "string \<Rightarrow> string" where
  "abbreviateEventName event =
     foldl (\<lambda>ev abbr. ReplaceAll ev (fst abbr) (snd abbr)) event abbreviations"

section \<open>The collectability filter\<close>

definition isOCRName :: "string \<Rightarrow> bool" where
  "isOCRName n = (HasPrefix n ''OCR'' \<or> HasPrefix n ''OFFCORE_REQUESTS_OUTSTANDING'')"

definition pebsEventNames :: "string list" where
  "pebsEventNames = [''INT_MISC.UNKNOWN_BRANCH_CYCLES'', ''UOPS_RETIRED.MS'']"

text \<open>
  The chain of tests of \<open>isCollectableEvent\<close>, in the order of the source. The loop
  over the keys of \<open>UncoreDeviceIDs\<close> sets \<open>deviceExists\<close> exactly when the device is
  a key of the map. \<open>strings.Split(event.Name, ":")[0]\<close> is the head of a list that is
  never empty.
\<close>

definition isCollectableEvent :: "EventDefinition \<Rightarrow> Metadata \<Rightarrow> Scope \<Rightarrow> bool" where
  "isCollectableEvent event metadata flagScope =
     (if \<not> SupportsFixedTMA metadata \<and>
         (Name event = ''TOPDOWN.SLOTS'' \<or> HasPrefix (Name event) ''PERF_METRICS.'') then False
      else if \<not> SupportsPEBS metadata \<and> Name event \<in> set pebsEventNames then False
      else if Device event = ''cpu'' \<and> \<not> isOCRName (Name event) then True
      else if Device event = ''cpu'' \<and> isOCRName (Name event) then
        (if \<not> (SupportsOCR metadata \<and> SupportsUncore metadata) then False
         else if flagScope = scopeProcess \<or> flagScope = scopeCgroup then False
         else True)
      else if \<not> SupportsUncore metadata \<and> HasPrefix (Name event) ''UNC'' then False
      else if Device event \<noteq> ''cpu'' \<and> Device event \<noteq> [] then
        (if flagScope = scopeProcess \<or> flagScope = scopeCgroup then False
         else if UncoreDeviceIDs metadata (Device event) = None then False
         else if \<not> Contains (Raw event) ''umask'' \<and> \<not> Contains (Raw event) ''event'' then False
         else True)
      else if \<not> SupportsRefCycles metadata \<and> Contains (Name event) ''ref-cycles'' then False
      else if (flagScope = scopeProcess \<or> flagScope = scopeCgroup) \<and>
              (Contains (Name event) ''cstate_'' \<or> Contains (Name event) ''power/energy'') then False
      else if \<not> Contains (PerfSupportedEvents metadata) (hd (Split (Name event) (CHR '':''))) then False
      else True)"

section \<open>Formatting integers\<close>

text \<open>
  \<open>fmt.Sprintf("%d", deviceID)\<close>: the decimal digits, with a minus sign in front of a
  negative number. Device ids are Go \<open>int\<close>s on which no arithmetic is done, so they
  are integers here.
\<close>

definition digitChar :: "nat \<Rightarrow> char" where
  "digitChar d = ''0123456789'' ! d"

fun showNat :: "nat \<Rightarrow> string" where
  "showNat n = (if n < 10 then [digitChar n] else showNat (n div 10) @ [digitChar (n mod 10)])"

declare showNat.simps [simp del]

definition showInt :: "int \<Rightarrow> string" where
  "showInt i = (if i < 0 then CHR ''-'' # showNat (nat (- i)) else showNat (nat i))"

section \<open>The pattern of a raw uncore event\<close>

text \<open>
  The one regular expression of the source,
  \<^verbatim>\<open>(\w+)/event=(0x[0-9,a-f,A-F]+),umask=(0x[0-9,a-f,A-F]+.*),name='(.*)'\<close>,
  is a sequence of literals and of greedy repetitions of a character class, with four
  capture groups that are not nested. Go's \<open>regexp\<close> finds the leftmost match and,
  there, the one a backtracking matcher that prefers longer repetitions finds first.
  The matcher below is that backtracking search: a repetition tries its longest run
  first and gives characters back one at a time.
\<close>

datatype cls = Word | HexComma | AnyChar

fun inCls :: "cls \<Rightarrow> char \<Rightarrow> bool" where
  "inCls Word c =
     (c \<in> set ''0123456789ABCDEFGHIJKLMNOPQRSTUVWXYZabcdefghijklmnopqrstuvwxyz_'')"
| "inCls HexComma c = (c \<in> set ''0123456789,abcdefABCDEF'')"
| "inCls AnyChar c = (c \<noteq> CHR 0x0A)"

datatype atom = Lit string | Rep nat cls | Mark

text \<open>\<open>firstDown f lo k\<close>: the first success of \<open>f\<close> at \<open>k, k - 1, ..., lo\<close>.\<close>

fun firstDown :: "(nat \<Rightarrow> 'a option) \<Rightarrow> nat \<Rightarrow> nat \<Rightarrow> 'a option" where
  "firstDown f lo 0 = (if lo = 0 then f 0 else None)"
| "firstDown f lo (Suc k) =
     (if Suc k < lo then None
      else (case f (Suc k) of
              Some r \<Rightarrow> Some r
            | None \<Rightarrow> firstDown f lo k))"

text \<open>
  \<open>matchHere p s pos\<close> matches the pattern at the head of \<open>s\<close>, which starts at
  offset \<open>pos\<close> of the whole string; it returns the offsets of the marks, in order,
  followed by the offset where the match ends.
\<close>

fun matchHere :: "atom list \<Rightarrow> string \<Rightarrow> nat \<Rightarrow> nat list option" where
  "matchHere [] s pos = Some [pos]"
| "matchHere (Mark # as) s pos = map_option (\<lambda>ms. pos # ms) (matchHere as s pos)"
| "matchHere (Lit l # as) s pos =
     (if HasPrefix s l then matchHere as (drop (length l) s) (pos + length l) else None)"
| "matchHere (Rep n c # as) s pos =
     firstDown (\<lambda>k. matchHere as (drop k s) (pos + k)) n (length (takeWhile (inCls c) s))"

text \<open>The leftmost start at which the pattern matches.\<close>

fun findAt :: "atom list \<Rightarrow> string \<Rightarrow> nat \<Rightarrow> (nat \<times> nat list) option" where
  "findAt p [] pos = map_option (\<lambda>ms. (pos, ms)) (matchHere p [] pos)"
| "findAt p (c # cs) pos =
     (case matchHere p (c # cs) pos of
        Some ms \<Rightarrow> Some (pos, ms)
      | None \<Rightarrow> findAt p cs (Suc pos))"

definition slice :: "string \<Rightarrow> nat \<Rightarrow> nat \<Rightarrow> string" where
  "slice s a b = take (b - a) (drop a s)"

fun groupsOf :: "string \<Rightarrow> nat list \<Rightarrow> string list" where
  "groupsOf s (a # b # ms) = slice s a b # groupsOf s ms"
| "groupsOf s ms = []"

text \<open>
  \<open>re.FindStringSubmatch(s)\<close>: nil when there is no match, else the matched text
  followed by the text of each group.
\<close>

definition FindStringSubmatch :: "atom list \<Rightarrow> string \<Rightarrow> string list" where
  "FindStringSubmatch p s =
     (case findAt p s 0 of
        None \<Rightarrow> []
      | Some (start, ms) \<Rightarrow> slice s start (last ms) # groupsOf s (butlast ms))"

definition uncorePattern :: "atom list" where
  "uncorePattern =
     [Mark, Rep 1 Word, Mark, Lit ''/event='',
      Mark, Lit ''0x'', Rep 1 HexComma, Mark, Lit '',umask='',
      Mark, Lit ''0x'', Rep 1 HexComma, Rep 0 AnyChar, Mark, Lit ('',name='' @ [CHR 0x27]),
      Mark, Rep 0 AnyChar, Mark, Lit [CHR 0x27]]"

section \<open>The uncore group expander\<close>

text \<open>
  The body of the inner loop of \<open>expandUncoreGroup\<close>. \<open>match[1]\<close> to \<open>match[4]\<close>
  panic on a match of fewer than five strings (the pattern of the source always gives
  five). The new event takes its Device from the old one and has no Description.
\<close>

definition rewriteEvent :: "string list \<Rightarrow> string \<Rightarrow> int \<Rightarrow> EventDefinition \<Rightarrow> EventDefinition" where
  "rewriteEvent match vendor deviceID event =
     (if vendor = ''AuthenticAMD'' then
        (let newName = match ! 4
         in \<lparr>Raw = ''amd_'' @ match ! 1 @ ''/event='' @ match ! 2 @ '',umask='' @ match ! 3 @
                   '',name='' @ [CHR 0x27] @ newName @ [CHR 0x27] @ ''/'',
             Name = newName, Device = Device event, Description = []\<rparr>)
      else
        (let newName = match ! 4 @ ''.'' @ showInt deviceID
         in \<lparr>Raw = ''uncore_'' @ match ! 1 @ ''_'' @ showInt deviceID @ ''/event='' @ match ! 2 @
                   '',umask='' @ match ! 3 @ '',name='' @ [CHR 0x27] @ newName @ [CHR 0x27] @ ''/'',
             Name = newName, Device = Device event, Description = []\<rparr>))"

text \<open>
  The inner loop over the events of the group, for one device id: the new group, or the
  error that makes \<open>expandUncoreGroup\<close> return.
\<close>

fun expandEvents :: "(string \<Rightarrow> string list) \<Rightarrow> string \<Rightarrow> int \<Rightarrow> GroupDefinition \<Rightarrow>
    (string + GroupDefinition) outcome" where
  "expandEvents re vendor deviceID [] = Returned (Inr [])"
| "expandEvents re vendor deviceID (event # rest) =
     (let match = re (Raw event)
      in if length match = 0 then
           Returned (Inl (''unexpected raw event format: '' @ Raw event))
         else if length match < 5 then Panic
         else
           (case expandEvents re vendor deviceID rest of
              Panic \<Rightarrow> Panic
            | Returned (Inl e) \<Rightarrow> Returned (Inl e)
            | Returned (Inr newGroup) \<Rightarrow>
                Returned (Inr (rewriteEvent match vendor deviceID event # newGroup))))"

text \<open>
  The outer loop over the device ids. The named results \<open>(groups, err)\<close> are returned
  together: on an error, \<open>groups\<close> holds the groups of the ids done before.
\<close>

fun expandUncoreGroup :: "GroupDefinition \<Rightarrow> int list \<Rightarrow> (string \<Rightarrow> string list) \<Rightarrow> string \<Rightarrow>
    (GroupDefinition list \<times> string option) outcome" where
  "expandUncoreGroup grp [] re vendor = Returned ([], None)"
| "expandUncoreGroup grp (deviceID # ids) re vendor =
     (case expandEvents re vendor deviceID grp of
        Panic \<Rightarrow> Panic
      | Returned (Inl e) \<Rightarrow> Returned ([], Some e)
      | Returned (Inr newGroup) \<Rightarrow>
          (case expandUncoreGroup grp ids re vendor of
             Panic \<Rightarrow> Panic
           | Returned (groups, err) \<Rightarrow> Returned (newGroup # groups, err)))"

text \<open>
  \<open>expandUncoreGroups\<close>: \<open>group[0]\<close> panics on an empty group; \<open>deviceTypes\<close> holds
  the keys of the inventory; a type with no id drops the group; an error of
  \<open>expandUncoreGroup\<close> returns at once, with the groups appended so far.
\<close>

fun expandUncoreGroups :: "GroupDefinition list \<Rightarrow> Metadata \<Rightarrow>
    (GroupDefinition list \<times> string option) outcome" where
  "expandUncoreGroups [] metadata = Returned ([], None)"
| "expandUncoreGroups (grp # rest) metadata =
     (case grp of
        [] \<Rightarrow> Panic
      | first # _ \<Rightarrow>
          (case UncoreDeviceIDs metadata (Device first) of
             None \<Rightarrow>
               (case expandUncoreGroups rest metadata of
                  Panic \<Rightarrow> Panic
                | Returned (expandedGroups, err) \<Rightarrow> Returned (grp # expandedGroups, err))
           | Some ids \<Rightarrow>
               if length ids = 0 then expandUncoreGroups rest metadata
               else
                 (case expandUncoreGroup grp ids (FindStringSubmatch uncorePattern)
                         (Vendor metadata) of
                    Panic \<Rightarrow> Panic
                  | Returned (newGroups, Some e) \<Rightarrow> Returned ([], Some e)
                  | Returned (newGroups, None) \<Rightarrow>
                      (case expandUncoreGroups rest metadata of
                         Panic \<Rightarrow> Panic
                       | Returned (expandedGroups, err) \<Rightarrow>
                           Returned (newGroups @ expandedGroups, err)))))"

section \<open>The x86 catalog loader\<close>

text \<open>
  \<open>strings.TrimSpace\<close> on ASCII text: tab, line feed, vertical tab, form feed,
  carriage return and space are removed at both ends.
\<close>

definition isSpace :: "char \<Rightarrow> bool" where
  "isSpace c = (c \<in> set [CHR 0x09, CHR 0x0A, CHR 0x0B, CHR 0x0C, CHR 0x0D, CHR '' ''])"

definition TrimSpace :: "string \<Rightarrow> string" where
  "TrimSpace s = rev (dropWhile isSpace (rev (dropWhile isSpace s)))"

text \<open>
  What the loaders read. For the x86 path: the result of opening the event file (the
  override file or the packaged one), that is an error or the lines the scanner
  yields and the error \<open>scanner.Err()\<close> reports after the last of them. For the ARM
  path: the result of \<open>os.Stat\<close> on the override path (an error, or whether it is a
  directory), and the result of reading the event directory (an error, or its
  entries in the order of the listing, which is sorted by file name). An entry carries
  what \<open>ReadFile\<close> and \<open>json.Unmarshal\<close> make of it.
\<close>

record ARM64Event =
  ArchStdEvent :: string
  PublicDescription :: string

datatype FileData = ReadFails string | UnmarshalFails string | Unmarshalled "ARM64Event list"

record DirEntry =
  EntryName :: string
  IsDir :: bool
  Data :: FileData

record Files =
  eventFile :: "string + (string list \<times> string option)"
  overrideStat :: "string + bool"
  eventDir :: "string + DirEntry list"

text \<open>The event the loader files: the parsed one with Name and Raw abbreviated.\<close>

definition abbreviated :: "EventDefinition \<Rightarrow> EventDefinition" where
  "abbreviated parsed =
     parsed\<lparr>Name := abbreviateEventName (Name parsed), Raw := abbreviateEventName (Raw parsed)\<rparr>"

text \<open>
  The scanner loop of \<open>LoadEventGroups\<close>, with the variables it updates: \<open>grp\<close> (the
  current group), \<open>groups\<close> and the set \<open>uncollectable\<close>, kept as a list without
  duplicates. It ends with what the three hold and the error of the parser, if any.
\<close>

fun scanLines :: "Metadata \<Rightarrow> Scope \<Rightarrow> string list \<Rightarrow> GroupDefinition \<Rightarrow> GroupDefinition list \<Rightarrow>
    string list \<Rightarrow> (GroupDefinition list \<times> string list \<times> string option) outcome" where
  "scanLines metadata flagScope [] grp groups uncollectable =
     Returned (groups, uncollectable, None)"
| "scanLines metadata flagScope (text # rest) grp groups uncollectable =
     (let line = TrimSpace text
      in if length line = 0 \<or> line ! 0 = CHR ''#'' then
           scanLines metadata flagScope rest grp groups uncollectable
         else
           (case parseEventDefinition (take (length line - 1) line) of
              Panic \<Rightarrow> Panic
            | Returned (parsed, Some e) \<Rightarrow> Returned (groups, uncollectable, Some e)
            | Returned (parsed, None) \<Rightarrow>
                (let event = abbreviated parsed;
                     collectable = isCollectableEvent event metadata flagScope;
                     grp' = (if collectable then grp @ [event] else grp);
                     uncollectable' =
                       (if collectable then uncollectable
                        else List.insert (Name event) uncollectable)
                 in if line ! (length line - 1) = CHR '';'' then
                      scanLines metadata flagScope rest []
                        (if length grp' > 0 then groups @ [grp'] else groups) uncollectable'
                    else
                      scanLines metadata flagScope rest grp' groups uncollectable')))"

section \<open>The ARM catalog loader\<close>

definition lookupArmVariant :: "Metadata \<Rightarrow> string + string" where
  "lookupArmVariant metadata =
     (if Microarchitecture metadata = ''Neoverse V2'' then Inr ''neoverse-n2-v2''
      else Inl (''unknown ARM variant: '' @ Microarchitecture metadata))"

text \<open>\<open>strings.ToLower\<close> on ASCII text, and \<open>strings.HasSuffix\<close>.\<close>

definition lowerChar :: "char \<Rightarrow> char" where
  "lowerChar c =
     (case map_of (zip ''ABCDEFGHIJKLMNOPQRSTUVWXYZ'' ''abcdefghijklmnopqrstuvwxyz'') c of
        None \<Rightarrow> c
      | Some l \<Rightarrow> l)"

definition ToLower :: "string \<Rightarrow> string" where
  "ToLower s = map lowerChar s"

definition HasSuffix :: "string \<Rightarrow> string \<Rightarrow> bool" where
  "HasSuffix s suffix =
     (length suffix \<le> length s \<and> drop (length s - length suffix) s = suffix)"

definition armEvent :: "ARM64Event \<Rightarrow> EventDefinition" where
  "armEvent e =
     \<lparr>Raw = ArchStdEvent e, Name = ArchStdEvent e, Device = ''cpu'',
      Description = PublicDescription e\<rparr>"

text \<open>
  The loop over the directory entries. Its variables are the named results \<open>groups\<close>
  and \<open>err\<close>: \<open>ReadFile\<close> and \<open>json.Unmarshal\<close> assign \<open>err\<close>, a failure
  continues with the next entry, and a file read and parsed leaves \<open>err\<close> nil. (The
  set \<open>uncollectable\<close> of the source is filled in the loop and never read.)
\<close>

fun armFiles :: "Metadata \<Rightarrow> Scope \<Rightarrow> DirEntry list \<Rightarrow> GroupDefinition list \<Rightarrow> string option \<Rightarrow>
    GroupDefinition list \<times> string option" where
  "armFiles metadata flagScope [] groups err = (groups, err)"
| "armFiles metadata flagScope (fileEntry # rest) groups err =
     (if \<not> IsDir fileEntry \<and> HasSuffix (ToLower (EntryName fileEntry)) ''.json'' then
        (case Data fileEntry of
           ReadFails e \<Rightarrow> armFiles metadata flagScope rest groups (Some e)
         | UnmarshalFails e \<Rightarrow> armFiles metadata flagScope rest groups (Some e)
         | Unmarshalled armEvents \<Rightarrow>
             (let currentGroup =
                    filter (\<lambda>event. isCollectableEvent event metadata flagScope)
                      (map armEvent armEvents)
              in armFiles metadata flagScope rest
                   (if length currentGroup > 0 then groups @ [currentGroup] else groups) None))
      else armFiles metadata flagScope rest groups err)"

text \<open>
  The results are \<open>(groups, uncollectableEvents, err)\<close>; \<open>uncollectableEvents\<close> is
  never assigned on this path.
\<close>

definition LoadArmEventGroups :: "string \<Rightarrow> Metadata \<Rightarrow> Scope \<Rightarrow> Files \<Rightarrow>
    GroupDefinition list \<times> string list \<times> string option" where
  "LoadArmEventGroups eventDefinitionOverridePath metadata flagScope files =
     (if eventDefinitionOverridePath \<noteq> [] then
        (case overrideStat files of
           Inl statErr \<Rightarrow>
             ([], [], Some (''failed to stat eventDefinitionOverridePath '' @ [CHR 0x27] @
                 eventDefinitionOverridePath @ [CHR 0x27] @ '': '' @ statErr))
         | Inr isDir \<Rightarrow>
             if \<not> isDir then
               ([], [], Some (''ARM64 eventDefinitionOverridePath '' @ [CHR 0x27] @
                   eventDefinitionOverridePath @ [CHR 0x27] @ '' is not a directory''))
             else
               (case eventDir files of
                  Inl e \<Rightarrow>
                    ([], [], Some (''failed to read override event directory '' @ [CHR 0x27] @
                        eventDefinitionOverridePath @ [CHR 0x27] @ '': '' @ e))
                | Inr eventFiles \<Rightarrow>
                    (case armFiles metadata flagScope eventFiles [] None of
                       (groups, err) \<Rightarrow> (groups, [], err))))
      else
        (case lookupArmVariant metadata of
           Inl e \<Rightarrow> ([], [], Some (''failed to lookup ARM variant: '' @ e))
         | Inr microarchitectureVariant \<Rightarrow>
             (case eventDir files of
                Inl e \<Rightarrow>
                  ([], [], Some (''failed to read ARM event directory '' @ [CHR 0x27] @
                      ''resources/events/'' @ Architecture metadata @ ''/'' @
                      microarchitectureVariant @ [CHR 0x27] @ '': '' @ e))
              | Inr eventFiles \<Rightarrow>
                  (case armFiles metadata flagScope eventFiles [] None of
                     (groups, err) \<Rightarrow> (groups, [], err)))))"

section \<open>The entry point\<close>

text \<open>
  \<open>LoadEventGroups\<close> with its named results \<open>(groups, uncollectableEvents, err)\<close>. A
  bare \<open>return\<close> after a failed parse or a scanner error returns the groups flushed so
  far, \<open>uncollectableEvents\<close> still nil, and the error.
\<close>

definition LoadEventGroups :: "string \<Rightarrow> Metadata \<Rightarrow> Scope \<Rightarrow> Files \<Rightarrow>
    (GroupDefinition list \<times> string list \<times> string option) outcome" where
  "LoadEventGroups eventDefinitionOverridePath metadata flagScope files =
     (if Architecture metadata = ''arm64'' \<or> Architecture metadata = ''aarch64'' then
        Returned (LoadArmEventGroups eventDefinitionOverridePath metadata flagScope files)
      else
        (case eventFile files of
           Inl e \<Rightarrow> Returned ([], [], Some e)
         | Inr (lines, scanErr) \<Rightarrow>
             (case scanLines metadata flagScope lines [] [] [] of
                Panic \<Rightarrow> Panic
              | Returned (groups, uncollectable, Some e) \<Rightarrow> Returned (groups, [], Some e)
              | Returned (groups, uncollectable, None) \<Rightarrow>
                  (case scanErr of
                     Some e \<Rightarrow> Returned (groups, [], Some e)
                   | None \<Rightarrow>
                       (case expandUncoreGroups groups metadata of
                          Panic \<Rightarrow> Panic
                        | Returned (expanded, err) \<Rightarrow>
                            Returned (expanded, uncollectable, err))))))"

section \<open>The conditional expression transformer\<close>

text \<open>
  Modelled from the spec: \<open>transformConditional\<close> is called by
  \<open>TestTransformConditional\<close> and defined in a file of the repository that is missing
  here. The definition follows section 4.6 of the specification, and where that section
  leaves a choice it follows the eight assertions of the test:
  \<^item> \<open>if\<close> and \<open>else\<close> are tokens: the word with no letter, digit or underscore on
    either side. A formula with no \<open>if\<close> token is returned as it is.
  \<^item> One conditional is rewritten for each \<open>if\<close> token of the input, the innermost
    (the one at the greatest parenthesis depth, the leftmost of several) first, so that
    a conditional in parentheses is rewritten before the one around it and stays in it
    as rewritten.
  \<^item> The \<open>else\<close> of an \<open>if\<close> is the first \<open>else\<close> token after it at its own
    parenthesis depth, inside its scope; without one the result is a syntax error that
    names the formula.
  \<^item> The condition is the trimmed text between the two tokens.
  \<^item> The then-operand is the text from the start of the enclosing scope (the
    parenthesis that is open at the \<open>if\<close>, or the start of the formula) to the
    \<open>if\<close>, and the else-operand the text from the \<open>else\<close> to the end of that scope.
    This is the boundary the assertions fix, to which section 9 of the specification
    defers: \<open>1 - a / b if c > 1 else 0\<close> has the then-operand \<open>1 - a / b\<close>, across
    the operators, and in the last assertion of the test the \<open>if\<close> follows the group
    \<open>( c )\<close> while the then-operand is all of \<open>( a + ... ) / ( c )\<close>.
  \<^item> The output is the text before the scope, the trimmed condition, \<open>" ? "\<close>, the
    then-operand, \<open>" : "\<close>, the else-operand and the text after the scope. The
    operands lose the white space next to \<open>if\<close> and \<open>else\<close> and keep the white
    space at the parentheses of the scope; one space is put after the opening
    parenthesis of the scope, and one after its closing parenthesis when text follows.
    These are the extra spaces of the reference outputs.
\<close>

definition isIdent :: "char \<Rightarrow> bool" where
  "isIdent c = inCls Word c"

text \<open>The text starts with the word \<open>w\<close>, and the word ends there.\<close>

definition startsWord :: "string \<Rightarrow> string \<Rightarrow> bool" where
  "startsWord s w =
     (HasPrefix s w \<and> (case drop (length w) s of [] \<Rightarrow> True | d # _ \<Rightarrow> \<not> isIdent d))"

text \<open>
  The \<open>if\<close> tokens of a text, each with its offset and its parenthesis depth.
  \<open>prevIdent\<close> tells whether the character before the text belongs to a word.
\<close>

fun ifTokens :: "string \<Rightarrow> bool \<Rightarrow> nat \<Rightarrow> int \<Rightarrow> (nat \<times> int) list" where
  "ifTokens [] prevIdent pos depth = []"
| "ifTokens (c # cs) prevIdent pos depth =
     (if \<not> prevIdent \<and> startsWord (c # cs) ''if'' then [(pos, depth)] else []) @
     ifTokens cs (isIdent c) (Suc pos)
       (if c = CHR ''('' then depth + 1 else if c = CHR '')'' then depth - 1 else depth)"

text \<open>The leftmost token of the greatest depth.\<close>

fun innermost :: "(nat \<times> int) list \<Rightarrow> (nat \<times> int) option" where
  "innermost [] = None"
| "innermost (t # ts) =
     (case innermost ts of
        None \<Rightarrow> Some t
      | Some u \<Rightarrow> if snd t < snd u then Some u else Some t)"

text \<open>
  The offset of the first \<open>else\<close> token at depth 0 of the text after an \<open>if\<close>; the
  closing parenthesis of the scope ends the search.
\<close>

fun findElse :: "string \<Rightarrow> bool \<Rightarrow> nat \<Rightarrow> nat \<Rightarrow> nat option" where
  "findElse [] prevIdent depth pos = None"
| "findElse (c # cs) prevIdent depth pos =
     (if depth = 0 \<and> \<not> prevIdent \<and> startsWord (c # cs) ''else'' then Some pos
      else if c = CHR ''('' then findElse cs False (Suc depth) (Suc pos)
      else if c = CHR '')'' then
        (case depth of 0 \<Rightarrow> None | Suc d \<Rightarrow> findElse cs False d (Suc pos))
      else findElse cs (isIdent c) depth (Suc pos))"

text \<open>
  The offset of the first \<open>closer\<close> that no earlier \<open>opener\<close> matches, or the length
  of the text: the end of the enclosing scope, and on the reversed text its start.
\<close>

fun scopeEnd :: "char \<Rightarrow> char \<Rightarrow> string \<Rightarrow> nat \<Rightarrow> nat \<Rightarrow> nat" where
  "scopeEnd opener closer [] depth pos = pos"
| "scopeEnd opener closer (c # cs) depth pos =
     (if c = opener then scopeEnd opener closer cs (Suc depth) (Suc pos)
      else if c = closer then
        (case depth of 0 \<Rightarrow> pos | Suc d \<Rightarrow> scopeEnd opener closer cs d (Suc pos))
      else scopeEnd opener closer cs depth (Suc pos))"

definition trimLeft :: "string \<Rightarrow> string" where
  "trimLeft s = dropWhile isSpace s"

definition trimRight :: "string \<Rightarrow> string" where
  "trimRight s = rev (dropWhile isSpace (rev s))"

text \<open>The rewrite of the conditional whose \<open>if\<close> token is at offset \<open>idxIf\<close>.\<close>

definition rewriteAt :: "string \<Rightarrow> nat \<Rightarrow> string + string" where
  "rewriteAt formula idxIf =
     (let lhs = take idxIf formula;
          rhs = drop (idxIf + 2) formula
      in case findElse rhs True 0 0 of
           None \<Rightarrow> Inl (''if without else in expression: '' @ formula)
         | Some idxElse \<Rightarrow>
             (let k = scopeEnd (CHR '')'') (CHR ''('') (rev lhs) 0 0;
                  expression0 = take (length lhs - k) lhs;
                  thenText = drop (length lhs - k) lhs;
                  condition = take idxElse rhs;
                  rest = drop (idxElse + 4) rhs;
                  m = scopeEnd (CHR ''('') (CHR '')'') rest 0 0;
                  elseText = take m rest;
                  closing = take 1 (drop m rest);
                  expression3 = drop (Suc m) rest
              in Inr (expression0 @ (if expression0 \<noteq> [] then '' '' else []) @
                      TrimSpace condition @ '' ? '' @ trimRight thenText @ '' : '' @
                      trimLeft elseText @ closing @
                      (if expression3 \<noteq> [] then '' '' else []) @ expression3)))"

text \<open>As many rewrites as the input has \<open>if\<close> tokens, the innermost first.\<close>

fun rewriteTimes :: "nat \<Rightarrow> string \<Rightarrow> string + string" where
  "rewriteTimes 0 formula = Inr formula"
| "rewriteTimes (Suc n) formula =
     (case innermost (ifTokens formula False 0 0) of
        None \<Rightarrow> Inr formula
      | Some (idxIf, depth) \<Rightarrow>
          (case rewriteAt formula idxIf of
             Inl e \<Rightarrow> Inl e
           | Inr out \<Rightarrow> rewriteTimes n out))"

definition transformConditional :: "string \<Rightarrow> string + string" where
  "transformConditional origIn =
     rewriteTimes (length (ifTokens origIn False 0 0)) origIn"

section \<open>The statements of the specification\<close>

text \<open>A line the scanner loop does not skip, and the text it hands to the parser.\<close>

definition isDataLine :: "string \<Rightarrow> bool" where
  "isDataLine text = (\<not> (length (TrimSpace text) = 0 \<or> TrimSpace text ! 0 = CHR ''#''))"

definition recordOf :: "string \<Rightarrow> string" where
  "recordOf text = take (length (TrimSpace text) - 1) (TrimSpace text)"

text \<open>
  The specification of the expander: a group whose first event's device is no key of
  the inventory stands for itself; any other group stands for one clone per instance
  id, in the order of the inventory.
\<close>

definition cloneOf :: "(string \<Rightarrow> string list) \<Rightarrow> string \<Rightarrow> GroupDefinition \<Rightarrow> int \<Rightarrow> GroupDefinition" where
  "cloneOf re vendor grp deviceID =
     map (\<lambda>event. rewriteEvent (re (Raw event)) vendor deviceID event) grp"

definition expansionOf :: "Metadata \<Rightarrow> GroupDefinition \<Rightarrow> GroupDefinition list" where
  "expansionOf metadata grp =
     (case UncoreDeviceIDs metadata (Device (hd grp)) of
        None \<Rightarrow> [grp]
      | Some ids \<Rightarrow> map (cloneOf (FindStringSubmatch uncorePattern) (Vendor metadata) grp) ids)"

text \<open>A returned group that the expander did not rewrite.\<close>

definition passedThrough :: "Metadata \<Rightarrow> GroupDefinition \<Rightarrow> bool" where
  "passedThrough metadata grp =
     (case grp of [] \<Rightarrow> False | first # _ \<Rightarrow> UncoreDeviceIDs metadata (Device first) = None)"

text \<open>The lines of the x86 catalog, and a line the scanner loop gets past.\<close>

definition catalogLines :: "Files \<Rightarrow> string list" where
  "catalogLines files = (case eventFile files of Inl e \<Rightarrow> [] | Inr (ls, scanErr) \<Rightarrow> ls)"

definition lineOK :: "string \<Rightarrow> bool" where
  "lineOK text =
     (\<not> isDataLine text \<or>
      (case parseEventDefinition (recordOf text) of
         Panic \<Rightarrow> False
       | Returned (parsed, None) \<Rightarrow> True
       | Returned (parsed, Some e) \<Rightarrow> False))"

text \<open>
  A name of the uncollectable list is accounted for by a data line of the catalog whose
  parsed and abbreviated event has that name and fails the filter.
\<close>

definition rejectedName :: "Metadata \<Rightarrow> Scope \<Rightarrow> string list \<Rightarrow> string \<Rightarrow> bool" where
  "rejectedName metadata flagScope ls n =
     (\<exists>text \<in> set ls. isDataLine text \<and>
        (case parseEventDefinition (recordOf text) of
           Panic \<Rightarrow> False
         | Returned (parsed, None) \<Rightarrow>
             n = Name (abbreviated parsed) \<and>
             \<not> isCollectableEvent (abbreviated parsed) metadata flagScope
         | Returned (parsed, Some e) \<Rightarrow> False))"

text \<open>
  A long form stands as a whole word when the characters next to it occur in no long
  form of the table. \<open>nameWords\<close> cuts a string at every character that occurs in no
  long form; \<open>longFormsWhole\<close> holds when each piece is a long form or holds none.
\<close>

definition longFormChar :: "char \<Rightarrow> bool" where
  "longFormChar c = (c \<in> set (concat (map fst abbreviations)))"

fun nameWords :: "string \<Rightarrow> string list" where
  "nameWords [] = [[]]"
| "nameWords (c # cs) =
     (if longFormChar c then
        (case nameWords cs of
           [] \<Rightarrow> [[c]]
         | w # ws \<Rightarrow> (c # w) # ws)
      else [] # nameWords cs)"


text \<open>
  The order of Go strings, byte by byte: \<open>os.ReadDir\<close> and the \<open>ReadDir\<close> of the
  embedded resources list a directory sorted by file name in this order.
\<close>

fun lessName :: "string \<Rightarrow> string \<Rightarrow> bool" where
  "lessName [] [] = False"
| "lessName [] (b # bs) = True"
| "lessName (a # as) [] = False"
| "lessName (a # as) (b # bs) = ((of_char a :: nat) < of_char b \<or> (a = b \<and> lessName as bs))"

section \<open>Concrete inputs\<close>

definition intelMetadata :: Metadata where
  "intelMetadata =
     \<lparr>Architecture = ''x86_64'', Vendor = ''GenuineIntel'', Microarchitecture = ''SPR'',
      SupportsFixedTMA = True, SupportsPEBS = True, SupportsOCR = True, SupportsUncore = True,
      SupportsRefCycles = True, PerfSupportedEvents = ''B'',
      UncoreDeviceIDs = [''cha'' \<mapsto> [0, 1]]\<rparr>"

definition armMetadata :: Metadata where
  "armMetadata =
     \<lparr>Architecture = ''aarch64'', Vendor = ''ARM'', Microarchitecture = ''Neoverse V2'',
      SupportsFixedTMA = False, SupportsPEBS = False, SupportsOCR = False, SupportsUncore = False,
      SupportsRefCycles = False, PerfSupportedEvents = ''CPU_CYCLES'',
      UncoreDeviceIDs = Map.empty\<rparr>"

definition goodFile :: DirEntry where
  "goodFile =
     \<lparr>EntryName = ''general.json'', IsDir = False,
      Data = Unmarshalled [\<lparr>ArchStdEvent = ''CPU_CYCLES'', PublicDescription = ''cycles''\<rparr>]\<rparr>"

definition lastBadFile :: DirEntry where
  "lastBadFile =
     \<lparr>EntryName = ''zzz.json'', IsDir = False,
      Data = UnmarshalFails ''unexpected end of JSON input''\<rparr>"

definition firstBadFile :: DirEntry where
  "firstBadFile =
     \<lparr>EntryName = ''Broken.JSON'', IsDir = False,
      Data = UnmarshalFails ''unexpected end of JSON input''\<rparr>"

text \<open>An override directory with the given listing, and an x86 catalog with the given lines.\<close>

definition armDir :: "DirEntry list \<Rightarrow> Files" where
  "armDir entries = \<lparr>eventFile = Inl [], overrideStat = Inr True, eventDir = Inr entries\<rparr>"

definition catalog :: "string list \<Rightarrow> Files" where
  "catalog ls = \<lparr>eventFile = Inr (ls, None), overrideStat = Inl [], eventDir = Inl []\<rparr>"

section \<open>Properties of the parser\<close>

lemma Split_nonempty: "Split s sep \<noteq> []"
  by (induction s) (auto split: list.splits)

lemma Split_no_sep: "sep \<notin> set s \<Longrightarrow> Split s sep = [s]"
  by (induction s) auto

text \<open>
  C9. A line with no comma is a record of one field: the parser returns without error
  an event whose Name and Raw are the line and whose Device is empty.
\<close>

theorem parseEventDefinition_single_field:
  assumes "CHR '','' \<notin> set line"
  shows "parseEventDefinition line =
           Returned (\<lparr>Raw = line, Name = line, Device = [], Description = []\<rparr>, None)"
  using assms by (simp add: parseEventDefinition_def zeroEvent_def Split_no_sep)

theorem parseEventDefinition_single_field_witness:
  "CHR '','' \<notin> set ''ref-cycles'' \<and>
   parseEventDefinition ''ref-cycles'' =
     Returned (\<lparr>Raw = ''ref-cycles'', Name = ''ref-cycles'', Device = [], Description = []\<rparr>, None)"
  using parseEventDefinition_single_field [of "''ref-cycles''"] by simp

text \<open>
  C10. The parser is not total on lines of several fields: on \<open>a,b\<close> the slice
  \<open>nameField[:5]\<close> is out of range, and on \<open>a,name=\<close> the slice
  \<open>nameField[6:len-2]\<close> is; both calls panic and no format error is returned.
\<close>

theorem parseEventDefinition_panics:
  "parseEventDefinition ''a,b'' = Panic \<and> parseEventDefinition ''a,name='' = Panic"
  by (simp add: parseEventDefinition_def zeroEvent_def)

section \<open>Properties of the collectability filter\<close>

text \<open>
  What the rule for uncore devices does: outside system-wide scope it rejects; in
  system-wide scope an accepted event has a known device and a raw token that holds
  \<open>umask\<close> or \<open>event\<close>, one of the two being enough.
\<close>

lemma isCollectableEvent_device_scope:
  assumes "Device event \<noteq> ''cpu''" and "Device event \<noteq> []"
    and "flagScope = scopeProcess \<or> flagScope = scopeCgroup"
  shows "\<not> isCollectableEvent event metadata flagScope"
  using assms by (simp add: isCollectableEvent_def)

lemma isCollectableEvent_device_accepted:
  assumes "Device event \<noteq> ''cpu''" and "Device event \<noteq> []"
    and "isCollectableEvent event metadata flagScope"
  shows "UncoreDeviceIDs metadata (Device event) \<noteq> None \<and>
         (Contains (Raw event) ''umask'' \<or> Contains (Raw event) ''event'')"
  using assms by (auto simp: isCollectableEvent_def split: if_splits)

text \<open>
  C1. The claim wants both \<open>umask\<close> and \<open>event\<close> in the raw token of an accepted
  uncore event. The test of the source rejects only when both are missing: in
  system-wide scope, with \<open>cha\<close> in the inventory, the event of the line
  \<open>cha/umask=0x1,name='X'/\<close> is accepted although its raw token has no \<open>event\<close>.
\<close>

theorem isCollectableEvent_accepts_without_event:
  "isCollectableEvent
     \<lparr>Raw = ''cha/umask=0x1,name='X'/'', Name = ''X'', Device = ''cha'', Description = []\<rparr>
     intelMetadata scopeSystem \<and>
   UncoreDeviceIDs intelMetadata ''cha'' = Some [0, 1] \<and>
   \<not> Contains ''cha/umask=0x1,name='X'/'' ''event''"
  by (simp add: isCollectableEvent_def intelMetadata_def pebsEventNames_def isOCRName_def)

section \<open>Properties of the abbreviator\<close>











lemma nameWords_nonempty: "nameWords s \<noteq> []"
  by (induction s) (auto split: list.splits)






section \<open>Properties of the conditional transformer\<close>

lemma transformConditional_no_if:
  "ifTokens origIn False 0 0 = [] \<Longrightarrow> transformConditional origIn = Inr origIn"
  by (simp add: transformConditional_def)

text \<open>
  C4. The five literal cases: a formula without \<open>if\<close> is returned as it is, an
  \<open>if\<close> without \<open>else\<close> is an error, and the three conditionals are rewritten to
  the stated ternary text. The three further assertions of
  \<open>TestTransformConditional\<close>, on conditionals inside parentheses, hold as well, with
  the spacing of the reference outputs.
\<close>

theorem transformConditional_test_cases:
  "transformConditional ''100 * x / y'' = Inr ''100 * x / y'' \<and>
   isl (transformConditional ''100 * x / y if z'') \<and>
   transformConditional ''a if b else c'' = Inr ''b ? a : c'' \<and>
   transformConditional ''(1 - x / y) if z > 1 else 0'' = Inr ''z > 1 ? (1 - x / y) : 0'' \<and>
   transformConditional ''1 - a / b if c > 1 else 0'' = Inr ''c > 1 ? 1 - a / b : 0'' \<and>
   transformConditional ''1 - ( (a) if c else d )'' = Inr ''1 - ( c ?  (a) : d )'' \<and>
   transformConditional
     ''100 * ( min( ( ( ( a / ( b ) ) - ( min( ( ( ( ( 1 - ( ( ( 19 * ( c * ( 1 + ( d / e ) ) ) + 10 * ( ( f * ( 1 + ( d / e ) ) ) + ( g * ( 1 + ( d / e ) ) ) + ( h * ( 1 + ( d / e ) ) ) ) ) / ( ( 19 * ( c * ( 1 + ( d / e ) ) ) + 10 * ( ( f * ( 1 + ( d / e ) ) ) + ( g * ( 1 + ( d / e ) ) ) + ( h * ( 1 + ( d / e ) ) ) ) ) + ( 25 * ( ( i * ( 1 + ( d / e ) ) ) ) + 33 * ( ( j * ( 1 + ( d / e ) ) ) ) ) ) ) ) ) * ( a / ( b ) ) ) if ( ( 1000000 ) * ( j + i ) > e ) else 0 ) ) , ( 1 ) ) ) ) ) , ( 1 ) ) )'' =
   Inr ''100 * ( min( ( ( ( a / ( b ) ) - ( min( ( ( ( ( 1000000 ) * ( j + i ) > e ) ?  ( ( 1 - ( ( ( 19 * ( c * ( 1 + ( d / e ) ) ) + 10 * ( ( f * ( 1 + ( d / e ) ) ) + ( g * ( 1 + ( d / e ) ) ) + ( h * ( 1 + ( d / e ) ) ) ) ) / ( ( 19 * ( c * ( 1 + ( d / e ) ) ) + 10 * ( ( f * ( 1 + ( d / e ) ) ) + ( g * ( 1 + ( d / e ) ) ) + ( h * ( 1 + ( d / e ) ) ) ) ) + ( 25 * ( ( i * ( 1 + ( d / e ) ) ) ) + 33 * ( ( j * ( 1 + ( d / e ) ) ) ) ) ) ) ) ) * ( a / ( b ) ) ) : 0 )  ) , ( 1 ) ) ) ) ) , ( 1 ) ) )'' \<and>
   transformConditional
     ''100 * ( ( a + ( b / ( c ) ) * ( d - e ) + ( f + ( g / ( h + i + g + j ) ) * k ) ) / ( c ) if ( l < ( d - e ) ) else ( f + ( g / ( h + i + g + j ) ) * k ) / ( c ) )'' =
   Inr ''100 * ( ( l < ( d - e ) ) ?  ( a + ( b / ( c ) ) * ( d - e ) + ( f + ( g / ( h + i + g + j ) ) * k ) ) / ( c ) : ( f + ( g / ( h + i + g + j ) ) * k ) / ( c ) )''"
  by code_simp

section \<open>Decimal numerals are injective\<close>

lemma digitChar_inj: "a < 10 \<Longrightarrow> b < 10 \<Longrightarrow> digitChar a = digitChar b \<Longrightarrow> a = b"
proof -
  assume a: "a < 10" and b: "b < 10" and e: "digitChar a = digitChar b"
  have d: "distinct ''0123456789''" by simp
  have l: "length ''0123456789'' = 10" by simp
  from e have "''0123456789'' ! a = ''0123456789'' ! b" by (simp add: digitChar_def)
  with d a b l show "a = b" by (metis nth_eq_iff_index_eq)
qed

lemma showNat_nonempty: "showNat n \<noteq> []"
  by (subst showNat.simps) simp

lemma showNat_inj: "showNat n = showNat m \<Longrightarrow> n = m"
proof (induction n arbitrary: m rule: showNat.induct)
  case (1 n)
  show ?case
  proof (cases "n < 10")
    case True
    show ?thesis
    proof (cases "m < 10")
      case mT: True
      from 1(2) True mT have "digitChar n = digitChar m"
        by (simp add: showNat.simps [of n] showNat.simps [of m])
      then show ?thesis using digitChar_inj [OF True mT] by simp
    next
      case mF: False
      from 1(2) True mF have "[digitChar n] = showNat (m div 10) @ [digitChar (m mod 10)]"
        by (simp add: showNat.simps [of n] showNat.simps [of m])
      then have "showNat (m div 10) = []" by simp
      then show ?thesis by (simp add: showNat_nonempty)
    qed
  next
    case False
    show ?thesis
    proof (cases "m < 10")
      case mT: True
      from 1(2) False mT have "showNat (n div 10) @ [digitChar (n mod 10)] = [digitChar m]"
        by (simp add: showNat.simps [of n] showNat.simps [of m])
      then have "showNat (n div 10) = []" by simp
      then show ?thesis by (simp add: showNat_nonempty)
    next
      case mF: False
      from 1(2) False mF
      have "showNat (n div 10) @ [digitChar (n mod 10)] = showNat (m div 10) @ [digitChar (m mod 10)]"
        by (simp add: showNat.simps [of n] showNat.simps [of m])
      then have e1: "showNat (n div 10) = showNat (m div 10)"
        and e2: "digitChar (n mod 10) = digitChar (m mod 10)" by simp_all
      from 1(1) [OF False e1] have q: "n div 10 = m div 10" .
      have r: "n mod 10 = m mod 10" using e2 by (intro digitChar_inj) simp_all
      from q r show ?thesis by (metis div_mult_mod_eq)
    qed
  qed
qed

lemma digitChar_not_minus: "d < 10 \<Longrightarrow> digitChar d \<noteq> CHR ''-''"
proof -
  assume "d < 10"
  then have "d \<in> {0, 1, 2, 3, 4, 5, 6, 7, 8, 9}" by auto
  then show ?thesis by (auto simp: digitChar_def)
qed

lemma showNat_hd: "hd (showNat n) \<noteq> CHR ''-''"
proof (induction n rule: showNat.induct)
  case (1 n)
  show ?case
  proof (cases "n < 10")
    case True
    then show ?thesis by (simp add: showNat.simps [of n] digitChar_not_minus)
  next
    case False
    with 1 show ?thesis
      by (simp add: showNat.simps [of n] showNat_nonempty)
  qed
qed

lemma showInt_inj: "showInt i = showInt j \<Longrightarrow> i = j"
proof -
  assume e: "showInt i = showInt j"
  have neg: "CHR ''-'' # showNat a \<noteq> showNat b" for a b
    using showNat_hd [of b] by (metis list.sel(1))
  show ?thesis
  proof (cases "i < 0")
    case True
    show ?thesis
    proof (cases "j < 0")
      case jT: True
      with True e have "nat (- i) = nat (- j)" by (simp add: showInt_def showNat_inj)
      with True jT show ?thesis by simp
    next
      case False
      with True e neg show ?thesis by (simp add: showInt_def)
    qed
  next
    case False
    show ?thesis
    proof (cases "j < 0")
      case True
      with False e neg [of "nat (- j)" "nat i"] show ?thesis by (simp add: showInt_def)
    next
      case jF: False
      with False e have "nat i = nat j" by (simp add: showInt_def showNat_inj)
      with False jF show ?thesis by simp
    qed
  qed
qed

section \<open>Properties of the pattern matcher\<close>

lemma firstDown_Some: "firstDown f lo k = Some r \<Longrightarrow> \<exists>j. f j = Some r"
  by (induction k) (auto split: if_splits option.splits)

lemma matchHere_length:
  "matchHere p s pos = Some ms \<Longrightarrow> length ms = Suc (length (filter (\<lambda>a. a = Mark) p))"
proof (induction p s pos arbitrary: ms rule: matchHere.induct)
  case (1 s pos)
  then show ?case by auto
next
  case (2 as s pos)
  then show ?case by auto
next
  case (3 l as s pos)
  then show ?case by (auto split: if_splits)
next
  case (4 n c as s pos)
  from 4(2) obtain j where "matchHere as (drop j s) (pos + j) = Some ms"
    by (auto dest: firstDown_Some)
  with 4(1) show ?case by simp
qed

lemma findAt_length:
  "findAt p s pos = Some (start, ms) \<Longrightarrow> length ms = Suc (length (filter (\<lambda>a. a = Mark) p))"
  by (induction s arbitrary: pos) (auto split: option.splits dest: matchHere_length)

lemma groupsOf_length: "length (groupsOf s ms) = length ms div 2"
  by (induction s ms rule: groupsOf.induct) simp_all

lemma uncorePattern_marks: "length (filter (\<lambda>a. a = Mark) uncorePattern) = 8"
  by (simp add: uncorePattern_def)

lemma FindStringSubmatch_uncore_length:
  assumes "FindStringSubmatch uncorePattern s \<noteq> []"
  shows "length (FindStringSubmatch uncorePattern s) = 5"
proof -
  from assms obtain start ms where f: "findAt uncorePattern s 0 = Some (start, ms)"
    by (auto simp: FindStringSubmatch_def split: option.splits)
  then have "length ms = 9" by (auto dest: findAt_length simp: uncorePattern_marks)
  with f show ?thesis by (simp add: FindStringSubmatch_def groupsOf_length)
qed

lemma FindStringSubmatch_cha_A:
  "FindStringSubmatch uncorePattern ''cha/event=0x1,umask=0x2,name='A'/'' =
     [''cha/event=0x1,umask=0x2,name='A'' @ [CHR 0x27], ''cha'', ''0x1'', ''0x2'', ''A'']"
  by (simp add: FindStringSubmatch_def uncorePattern_def slice_def)

lemma FindStringSubmatch_no_event:
  "FindStringSubmatch uncorePattern ''cha/umask=0x1,name='X'/'' = []"
  by (simp add: FindStringSubmatch_def uncorePattern_def slice_def)

lemma showInt_0_1: "showInt 0 = ''0''" "showInt 1 = ''1''"
  by (simp_all add: showInt_def showNat.simps digitChar_def)

section \<open>Properties of the uncore group expander\<close>

lemma sandwich_inj:
  assumes "A @ s @ B @ s @ C = A @ t @ B @ t @ (C :: 'a list)"
  shows "s = t"
proof -
  from assms have e: "s @ (B @ s @ C) = t @ (B @ t @ C)" by simp
  have "length (A @ s @ B @ s @ C) = length (A @ t @ B @ t @ C)"
    using assms by (rule arg_cong)
  then have "length s = length t" by simp
  with e show ?thesis using append_eq_append_conv [of s t "B @ s @ C" "B @ t @ C"] by blast
qed

lemma rewriteEvent_Name_distinct:
  assumes "vendor \<noteq> ''AuthenticAMD''" and "i \<noteq> j"
  shows "Name (rewriteEvent m vendor i e) \<noteq> Name (rewriteEvent m vendor j e)"
  using assms by (auto simp: rewriteEvent_def Let_def dest: showInt_inj)

lemma rewriteEvent_Raw_distinct:
  assumes "vendor \<noteq> ''AuthenticAMD''" and "i \<noteq> j"
  shows "Raw (rewriteEvent m vendor i e) \<noteq> Raw (rewriteEvent m vendor j e)"
proof
  assume "Raw (rewriteEvent m vendor i e) = Raw (rewriteEvent m vendor j e)"
  with assms(1) have
    "(''uncore_'' @ m ! 1 @ ''_'') @ showInt i @
       (''/event='' @ m ! 2 @ '',umask='' @ m ! 3 @ '',name='' @ [CHR 0x27] @ m ! 4 @ ''.'') @
       showInt i @ ([CHR 0x27] @ ''/'') =
     (''uncore_'' @ m ! 1 @ ''_'') @ showInt j @
       (''/event='' @ m ! 2 @ '',umask='' @ m ! 3 @ '',name='' @ [CHR 0x27] @ m ! 4 @ ''.'') @
       showInt j @ ([CHR 0x27] @ ''/'')"
    by (simp add: rewriteEvent_def Let_def)
  then have "showInt i = showInt j" by (rule sandwich_inj)
  with assms(2) show False by (auto dest: showInt_inj)
qed

lemma expandEvents_matching:
  "\<forall>event \<in> set grp. 5 \<le> length (re (Raw event)) \<Longrightarrow>
   expandEvents re vendor deviceID grp = Returned (Inr (cloneOf re vendor grp deviceID))"
  by (induction grp) (auto simp: cloneOf_def Let_def)

lemma expandUncoreGroup_matching:
  "\<forall>event \<in> set grp. 5 \<le> length (re (Raw event)) \<Longrightarrow>
   expandUncoreGroup grp ids re vendor = Returned (map (cloneOf re vendor grp) ids, None)"
  by (induction ids) (simp_all add: expandEvents_matching)

text \<open>
  C5, as the claim states it, fails for the vendor \<open>AuthenticAMD\<close>: the rewrite
  leaves the device id out of the name and of the raw token, so the clones of two
  instance ids are the same group.
\<close>

theorem expandUncoreGroup_amd_clones_equal:
  "expandUncoreGroup
     [\<lparr>Raw = ''cha/event=0x1,umask=0x2,name='A'/'', Name = ''A'', Device = ''cha'', Description = []\<rparr>]
     [0, 1] (FindStringSubmatch uncorePattern) ''AuthenticAMD'' =
   Returned
     ([[\<lparr>Raw = ''amd_cha/event=0x1,umask=0x2,name='A'/'', Name = ''A'', Device = ''cha'', Description = []\<rparr>],
       [\<lparr>Raw = ''amd_cha/event=0x1,umask=0x2,name='A'/'', Name = ''A'', Device = ''cha'', Description = []\<rparr>]],
      None)"
  by (simp add: FindStringSubmatch_cha_A rewriteEvent_def)

text \<open>
  C5, amended. When every raw token of the group matches the pattern, the expansion
  over k instance ids returns, without error, exactly k groups, each with as many
  events as the input; for a vendor other than \<open>AuthenticAMD\<close> and pairwise distinct
  ids, the clones of two different ids differ in the name and in the raw token of
  every event.
\<close>

theorem expandUncoreGroup_clones:
  assumes "\<forall>event \<in> set grp. 5 \<le> length (re (Raw event))"
  shows "\<exists>groups. expandUncoreGroup grp ids re vendor = Returned (groups, None) \<and>
           length groups = length ids \<and>
           (\<forall>g \<in> set groups. length g = length grp) \<and>
           (vendor \<noteq> ''AuthenticAMD'' \<longrightarrow> distinct ids \<longrightarrow>
              (\<forall>i < length ids. \<forall>j < length ids. i \<noteq> j \<longrightarrow>
                 (\<forall>n < length grp.
                    Name (groups ! i ! n) \<noteq> Name (groups ! j ! n) \<and>
                    Raw (groups ! i ! n) \<noteq> Raw (groups ! j ! n))))"
proof -
  let ?groups = "map (cloneOf re vendor grp) ids"
  have r: "expandUncoreGroup grp ids re vendor = Returned (?groups, None)"
    using assms by (rule expandUncoreGroup_matching)
  have l: "\<forall>g \<in> set ?groups. length g = length grp"
    by (auto simp: cloneOf_def)
  have d: "Name (?groups ! i ! n) \<noteq> Name (?groups ! j ! n) \<and>
           Raw (?groups ! i ! n) \<noteq> Raw (?groups ! j ! n)"
    if "vendor \<noteq> ''AuthenticAMD''" "distinct ids" "i < length ids" "j < length ids" "i \<noteq> j"
       "n < length grp" for i j n
  proof -
    from that have "ids ! i \<noteq> ids ! j" by (simp add: nth_eq_iff_index_eq)
    with that show ?thesis
      by (simp add: cloneOf_def rewriteEvent_Name_distinct rewriteEvent_Raw_distinct)
  qed
  from r l d show ?thesis by auto
qed

theorem expandUncoreGroup_clones_witness:
  "\<exists>groups.
     expandUncoreGroup
       [\<lparr>Raw = ''cha/event=0x1,umask=0x2,name='A'/'', Name = ''A'', Device = ''cha'', Description = []\<rparr>]
       [0, 1] (FindStringSubmatch uncorePattern) ''GenuineIntel'' = Returned (groups, None) \<and>
     length groups = 2 \<and>
     length (groups ! 0) = 1 \<and> length (groups ! 1) = 1 \<and>
     Name (groups ! 0 ! 0) \<noteq> Name (groups ! 1 ! 0) \<and>
     Raw (groups ! 0 ! 0) \<noteq> Raw (groups ! 1 ! 0)"
proof -
  let ?grp = "[\<lparr>Raw = ''cha/event=0x1,umask=0x2,name='A'/'', Name = ''A'',
                 Device = ''cha'', Description = []\<rparr>]"
  have h: "\<forall>event \<in> set ?grp. 5 \<le> length (FindStringSubmatch uncorePattern (Raw event))"
    by (simp add: FindStringSubmatch_cha_A)
  from expandUncoreGroup_clones [OF h, of "[0, 1]" "''GenuineIntel''"]
  obtain groups where
    r: "expandUncoreGroup ?grp [0, 1] (FindStringSubmatch uncorePattern) ''GenuineIntel'' =
          Returned (groups, None)"
    and l: "length groups = length [0, 1 :: int]"
    and e: "\<forall>g \<in> set groups. length g = length ?grp"
    and d: "''GenuineIntel'' \<noteq> ''AuthenticAMD'' \<longrightarrow> distinct [0, 1 :: int] \<longrightarrow>
              (\<forall>i < length [0, 1 :: int]. \<forall>j < length [0, 1 :: int]. i \<noteq> j \<longrightarrow>
                 (\<forall>n < length ?grp.
                    Name (groups ! i ! n) \<noteq> Name (groups ! j ! n) \<and>
                    Raw (groups ! i ! n) \<noteq> Raw (groups ! j ! n)))"
    by blast
  from d have n: "Name (groups ! 0 ! 0) \<noteq> Name (groups ! 1 ! 0) \<and>
      Raw (groups ! 0 ! 0) \<noteq> Raw (groups ! 1 ! 0)"
    by simp
  from l have l2: "length groups = 2" by simp
  with e have "length (groups ! 0) = 1 \<and> length (groups ! 1) = 1" by simp
  with r l2 n show ?thesis by blast
qed

text \<open>
  C7, as the claim states it, fails: a raw token that does not match the pattern makes
  the expansion return an error and no group, so the group of another device that
  follows is not in the output.
\<close>

theorem expandUncoreGroups_error_drops_rest:
  "expandUncoreGroups
     [[\<lparr>Raw = ''cha/umask=0x1,name='X'/'', Name = ''X'', Device = ''cha'', Description = []\<rparr>],
      [\<lparr>Raw = ''B'', Name = ''B'', Device = [], Description = []\<rparr>]] intelMetadata =
   Returned ([], Some ''unexpected raw event format: cha/umask=0x1,name='X'/'')"
  by (simp add: intelMetadata_def FindStringSubmatch_no_event)

text \<open>
  C7, amended. When no group is empty and every raw token of every group of a
  recognized device type with at least one instance id matches the pattern, the
  expansion returns without error the groups of the input in their order, a group of
  an unrecognized device unchanged and a group of a recognized one replaced in place by
  its clones in the order of the inventory's instance ids.
\<close>

theorem expandUncoreGroups_in_order:
  assumes "\<forall>grp \<in> set groups. grp \<noteq> []"
    and "\<forall>grp \<in> set groups. \<forall>ids. UncoreDeviceIDs metadata (Device (hd grp)) = Some ids \<longrightarrow>
           ids \<noteq> [] \<longrightarrow> (\<forall>event \<in> set grp. FindStringSubmatch uncorePattern (Raw event) \<noteq> [])"
  shows "expandUncoreGroups groups metadata =
           Returned (concat (map (expansionOf metadata) groups), None)"
  using assms
proof (induction groups)
  case Nil
  then show ?case by simp
next
  case (Cons grp rest)
  then have ih: "expandUncoreGroups rest metadata =
      Returned (concat (map (expansionOf metadata) rest), None)" by simp
  from Cons(2) obtain first others where g: "grp = first # others" by (cases grp) auto
  show ?case
  proof (cases "UncoreDeviceIDs metadata (Device first)")
    case None
    with g have "expansionOf metadata grp = [grp]" by (simp add: expansionOf_def)
    with None g ih show ?thesis by simp
  next
    case (Some ids)
    show ?thesis
    proof (cases "ids = []")
      case True
      with Some g have "expansionOf metadata grp = []" by (simp add: expansionOf_def)
      with True Some g ih show ?thesis by simp
    next
      case False
      with Cons(3) Some g
      have "\<forall>event \<in> set grp. FindStringSubmatch uncorePattern (Raw event) \<noteq> []" by simp
      then have "\<forall>event \<in> set grp. 5 \<le> length (FindStringSubmatch uncorePattern (Raw event))"
        by (simp add: FindStringSubmatch_uncore_length)
      then have "expandUncoreGroup grp ids (FindStringSubmatch uncorePattern) (Vendor metadata) =
          Returned (map (cloneOf (FindStringSubmatch uncorePattern) (Vendor metadata) grp) ids, None)"
        by (rule expandUncoreGroup_matching)
      moreover from Some g have "expansionOf metadata grp =
          map (cloneOf (FindStringSubmatch uncorePattern) (Vendor metadata) grp) ids"
        by (simp add: expansionOf_def)
      ultimately show ?thesis using Some False g ih by simp
    qed
  qed
qed

theorem expandUncoreGroups_in_order_witness:
  "expandUncoreGroups
     [[\<lparr>Raw = ''B'', Name = ''B'', Device = [], Description = []\<rparr>],
      [\<lparr>Raw = ''cha/event=0x1,umask=0x2,name='A'/'', Name = ''A'', Device = ''cha'', Description = []\<rparr>]]
     intelMetadata =
   Returned
     ([[\<lparr>Raw = ''B'', Name = ''B'', Device = [], Description = []\<rparr>],
       [\<lparr>Raw = ''uncore_cha_0/event=0x1,umask=0x2,name='A.0'/'', Name = ''A.0'', Device = ''cha'', Description = []\<rparr>],
       [\<lparr>Raw = ''uncore_cha_1/event=0x1,umask=0x2,name='A.1'/'', Name = ''A.1'', Device = ''cha'', Description = []\<rparr>]],
      None)"
  using expandUncoreGroups_in_order [of
      "[[\<lparr>Raw = ''B'', Name = ''B'', Device = [], Description = []\<rparr>],
        [\<lparr>Raw = ''cha/event=0x1,umask=0x2,name='A'/'', Name = ''A'', Device = ''cha'', Description = []\<rparr>]]"
      intelMetadata]
  by (simp add: intelMetadata_def expansionOf_def cloneOf_def rewriteEvent_def
      FindStringSubmatch_cha_A showInt_0_1)

section \<open>Properties of the x86 loader\<close>

lemma scanLines_skip:
  "\<not> isDataLine text \<Longrightarrow>
   scanLines metadata flagScope (text # rest) grp groups uncollectable =
   scanLines metadata flagScope rest grp groups uncollectable"
  by (simp add: isDataLine_def)

lemma scanLines_error:
  "isDataLine text \<Longrightarrow> parseEventDefinition (recordOf text) = Returned (parsed, Some e) \<Longrightarrow>
   scanLines metadata flagScope (text # rest) grp groups uncollectable =
   Returned (groups, uncollectable, Some e)"
  by (simp add: isDataLine_def recordOf_def)

lemma scanLines_event:
  "isDataLine text \<Longrightarrow> parseEventDefinition (recordOf text) = Returned (parsed, None) \<Longrightarrow>
   scanLines metadata flagScope (text # rest) grp groups uncollectable =
   (let event = abbreviated parsed;
        collectable = isCollectableEvent event metadata flagScope;
        grp' = (if collectable then grp @ [event] else grp);
        uncollectable' =
          (if collectable then uncollectable else List.insert (Name event) uncollectable)
    in if TrimSpace text ! (length (TrimSpace text) - 1) = CHR '';'' then
         scanLines metadata flagScope rest []
           (if length grp' > 0 then groups @ [grp'] else groups) uncollectable'
       else scanLines metadata flagScope rest grp' groups uncollectable')"
  by (simp add: isDataLine_def recordOf_def Let_def)

lemma scanLines_ok_prefix:
  "\<forall>text \<in> set pre. lineOK text \<Longrightarrow>
   \<exists>grp' groups' uncollectable'. \<forall>rest.
     scanLines metadata flagScope (pre @ rest) grp groups uncollectable =
     scanLines metadata flagScope rest grp' groups' uncollectable'"
proof (induction pre arbitrary: grp groups uncollectable)
  case Nil
  then show ?case by auto
next
  case (Cons ln pre)
  show ?case
  proof (cases "isDataLine ln")
    case False
    with Cons show ?thesis by (simp add: scanLines_skip del: scanLines.simps)
  next
    case True
    with Cons(2) obtain parsed where
      p: "parseEventDefinition (recordOf ln) = Returned (parsed, None)"
      by (auto simp: lineOK_def split: outcome.splits option.splits)
    from Cons(2) have ok: "\<forall>text \<in> set pre. lineOK text" by simp
    define event where "event = abbreviated parsed"
    define semi where "semi = (TrimSpace ln ! (length (TrimSpace ln) - 1) = CHR '';'')"
    define grp1 where
      "grp1 = (if isCollectableEvent event metadata flagScope then grp @ [event] else grp)"
    define unc1 where
      "unc1 = (if isCollectableEvent event metadata flagScope then uncollectable
               else List.insert (Name event) uncollectable)"
    have step: "scanLines metadata flagScope (ln # rest) grp groups uncollectable =
        scanLines metadata flagScope rest (if semi then [] else grp1)
          (if semi then (if length grp1 > 0 then groups @ [grp1] else groups) else groups) unc1"
      for rest
      by (simp add: scanLines_event [OF True p] Let_def event_def semi_def grp1_def unc1_def
          del: scanLines.simps)
    from Cons(1) [OF ok, of "if semi then [] else grp1"
        "if semi then (if length grp1 > 0 then groups @ [grp1] else groups) else groups" unc1]
    show ?thesis by (simp only: append_Cons step)
  qed
qed

text \<open>
  C6, as the claim states it, fails: the bare \<open>return\<close> after the failed parse
  returns, with the error, the groups flushed before the malformed line.
\<close>

theorem LoadEventGroups_returns_partial_groups:
  "LoadEventGroups [] intelMetadata scopeSystem (catalog [''B;'', ''b,ccccc;'']) =
   Returned ([[\<lparr>Raw = ''B'', Name = ''B'', Device = [], Description = []\<rparr>]], [],
     Some ''unrecognized event format, name field not found: b,ccccc'')"
  by code_simp

text \<open>
  C6, amended. On the x86 path, when the lines before the first malformed data line
  are skipped or parsed without error and the parse of that line returns an error, the
  load returns this error, with no uncollectable list and with the groups that the scan
  of the lines before it had flushed: the lines after it play no part, and the
  expander is not run.
\<close>

theorem LoadEventGroups_fail_fast:
  assumes "Architecture metadata \<noteq> ''arm64''" and "Architecture metadata \<noteq> ''aarch64''"
    and "eventFile files = Inr (pre @ bad # post, scanErr)"
    and "\<forall>text \<in> set pre. lineOK text"
    and "isDataLine bad"
    and "parseEventDefinition (recordOf bad) = Returned (parsed, Some e)"
  shows "\<exists>groups uncollectable.
           scanLines metadata flagScope pre [] [] [] = Returned (groups, uncollectable, None) \<and>
           LoadEventGroups path metadata flagScope files = Returned (groups, [], Some e)"
proof -
  from scanLines_ok_prefix [OF assms(4)] obtain grp' groups' uncollectable' where
    s: "\<And>rest. scanLines metadata flagScope (pre @ rest) [] [] [] =
         scanLines metadata flagScope rest grp' groups' uncollectable'"
    by blast
  from s [of "[]"] have a: "scanLines metadata flagScope pre [] [] [] =
      Returned (groups', uncollectable', None)" by simp
  from s [of "bad # post"] have b: "scanLines metadata flagScope (pre @ bad # post) [] [] [] =
      Returned (groups', uncollectable', Some e)"
    by (simp only: scanLines_error [OF assms(5) assms(6)])
  from assms(1-3) b have "LoadEventGroups path metadata flagScope files =
      Returned (groups', [], Some e)"
    by (simp add: LoadEventGroups_def)
  with a show ?thesis by blast
qed

theorem LoadEventGroups_fail_fast_witness:
  "\<exists>groups uncollectable.
     scanLines intelMetadata scopeSystem [''B;''] [] [] [] = Returned (groups, uncollectable, None) \<and>
     LoadEventGroups [] intelMetadata scopeSystem (catalog [''B;'', ''b,ccccc;'', ''B;'']) =
       Returned (groups, [], Some ''unrecognized event format, name field not found: b,ccccc'')"
proof (rule LoadEventGroups_fail_fast [of intelMetadata "catalog [''B;'', ''b,ccccc;'', ''B;'']"
      "[''B;'']" "''b,ccccc;''" "[''B;'']" None "zeroEvent\<lparr>Raw := ''b,ccccc''\<rparr>"])
  show "Architecture intelMetadata \<noteq> ''arm64''" by (simp add: intelMetadata_def)
  show "Architecture intelMetadata \<noteq> ''aarch64''" by (simp add: intelMetadata_def)
  show "eventFile (catalog [''B;'', ''b,ccccc;'', ''B;'']) =
      Inr ([''B;''] @ ''b,ccccc;'' # [''B;''], None)" by (simp add: catalog_def)
  show "\<forall>text \<in> set [''B;'']. lineOK text"
    by (simp add: lineOK_def isDataLine_def recordOf_def TrimSpace_def isSpace_def
        parseEventDefinition_def)
  show "isDataLine ''b,ccccc;''" by (simp add: isDataLine_def TrimSpace_def isSpace_def)
  show "parseEventDefinition (recordOf ''b,ccccc;'') =
      Returned (zeroEvent\<lparr>Raw := ''b,ccccc''\<rparr>,
        Some ''unrecognized event format, name field not found: b,ccccc'')"
    by (simp add: recordOf_def TrimSpace_def isSpace_def parseEventDefinition_def)
qed

section \<open>Every event the loaders file is collectable\<close>

lemma scanLines_collectable:
  assumes "scanLines metadata flagScope ls grp groups uncollectable = Returned (groups', uncollectable', err)"
    and "set ls \<subseteq> set allLines"
    and "\<forall>event \<in> set grp. isCollectableEvent event metadata flagScope"
    and "\<forall>g \<in> set groups. \<forall>event \<in> set g. isCollectableEvent event metadata flagScope"
    and "\<forall>n \<in> set uncollectable. rejectedName metadata flagScope allLines n"
  shows "(\<forall>g \<in> set groups'. \<forall>event \<in> set g. isCollectableEvent event metadata flagScope) \<and>
         (\<forall>n \<in> set uncollectable'. rejectedName metadata flagScope allLines n)"
  using assms
proof (induction ls arbitrary: grp groups uncollectable)
  case Nil
  then show ?case by simp
next
  case (Cons ln ls)
  from Cons(3) have sub: "set ls \<subseteq> set allLines" and mem: "ln \<in> set allLines" by simp_all
  show ?case
  proof (cases "isDataLine ln")
    case False
    with Cons(2) have "scanLines metadata flagScope ls grp groups uncollectable =
        Returned (groups', uncollectable', err)" by (simp add: scanLines_skip del: scanLines.simps)
    from Cons(1) [OF this sub Cons(4) Cons(5) Cons(6)] show ?thesis .
  next
    case True
    show ?thesis
    proof (cases "parseEventDefinition (recordOf ln)")
      case Panic
      with True Cons(2) show ?thesis by (simp add: isDataLine_def recordOf_def)
    next
      case (Returned r)
      obtain parsed perr where r: "r = (parsed, perr)" by (cases r)
      show ?thesis
      proof (cases perr)
        case (Some e)
        with Returned r True Cons(2) have "groups' = groups" "uncollectable' = uncollectable"
          by (simp_all add: scanLines_error del: scanLines.simps)
        with Cons(5) Cons(6) show ?thesis by simp
      next
        case None
        with Returned r have p: "parseEventDefinition (recordOf ln) = Returned (parsed, None)"
          by simp
        let ?event = "abbreviated parsed"
        show ?thesis
        proof (cases "isCollectableEvent ?event metadata flagScope")
          case c: True
          have g: "\<forall>event \<in> set (grp @ [?event]). isCollectableEvent event metadata flagScope"
            using Cons(4) c by simp
          show ?thesis
          proof (cases "TrimSpace ln ! (length (TrimSpace ln) - 1) = CHR '';''")
            case e: True
            with Cons(2) c have run: "scanLines metadata flagScope ls [] (groups @ [grp @ [?event]])
                uncollectable = Returned (groups', uncollectable', err)"
              by (auto simp add: scanLines_event [OF True p] Let_def simp del: scanLines.simps
                  split: if_splits)
            have gs: "\<forall>g \<in> set (groups @ [grp @ [?event]]). \<forall>event \<in> set g.
                isCollectableEvent event metadata flagScope"
              using Cons(5) g by simp
            from Cons(1) [OF run sub _ gs Cons(6)] show ?thesis by simp
          next
            case e: False
            with Cons(2) c have run: "scanLines metadata flagScope ls (grp @ [?event]) groups
                uncollectable = Returned (groups', uncollectable', err)"
              by (auto simp add: scanLines_event [OF True p] Let_def simp del: scanLines.simps
                  split: if_splits)
            from Cons(1) [OF run sub g Cons(5) Cons(6)] show ?thesis .
          qed
        next
          case c: False
          have "rejectedName metadata flagScope allLines (Name ?event)"
            unfolding rejectedName_def using mem True p c by (intro bexI [of _ ln]) simp_all
          then have u: "\<forall>n \<in> set (List.insert (Name ?event) uncollectable).
              rejectedName metadata flagScope allLines n"
            using Cons(6) by simp
          show ?thesis
          proof (cases "TrimSpace ln ! (length (TrimSpace ln) - 1) = CHR '';''")
            case e: True
            with Cons(2) c have run: "scanLines metadata flagScope ls []
                (if length grp > 0 then groups @ [grp] else groups)
                (List.insert (Name ?event) uncollectable) = Returned (groups', uncollectable', err)"
              by (auto simp add: scanLines_event [OF True p] Let_def simp del: scanLines.simps
                  split: if_splits)
            have gs: "\<forall>g \<in> set (if length grp > 0 then groups @ [grp] else groups).
                \<forall>event \<in> set g. isCollectableEvent event metadata flagScope"
              using Cons(4) Cons(5) by simp
            from Cons(1) [OF run sub _ gs u] show ?thesis by simp
          next
            case e: False
            with Cons(2) c have run: "scanLines metadata flagScope ls grp groups
                (List.insert (Name ?event) uncollectable) = Returned (groups', uncollectable', err)"
              by (auto simp add: scanLines_event [OF True p] Let_def simp del: scanLines.simps
                  split: if_splits)
            from Cons(1) [OF run sub Cons(4) Cons(5) u] show ?thesis .
          qed
        qed
      qed
    qed
  qed
qed

lemma expandEvents_Device:
  "expandEvents re vendor deviceID grp = Returned (Inr newGroup) \<Longrightarrow>
   map Device newGroup = map Device grp"
  by (induction grp arbitrary: newGroup)
     (auto simp: Let_def rewriteEvent_def split: if_splits outcome.splits sum.splits)

lemma expandUncoreGroup_Device:
  "expandUncoreGroup grp ids re vendor = Returned (newGroups, err) \<Longrightarrow>
   \<forall>g \<in> set newGroups. map Device g = map Device grp"
  by (induction ids arbitrary: newGroups)
     (auto split: outcome.splits sum.splits dest: expandEvents_Device)

lemma passedThrough_Device:
  "map Device g = map Device (first # others) \<Longrightarrow>
   UncoreDeviceIDs metadata (Device first) = Some ids \<Longrightarrow> \<not> passedThrough metadata g"
  by (cases g) (auto simp: passedThrough_def)

lemma expandUncoreGroups_passedThrough:
  "expandUncoreGroups groups metadata = Returned (expanded, err) \<Longrightarrow>
   \<forall>g \<in> set expanded. passedThrough metadata g \<longrightarrow> g \<in> set groups"
proof (induction groups arbitrary: expanded)
  case Nil
  then show ?case by simp
next
  case (Cons grp rest)
  show ?case
  proof (cases grp)
    case Nil
    with Cons(2) show ?thesis by simp
  next
    case g: (Cons first others)
    show ?thesis
    proof (cases "UncoreDeviceIDs metadata (Device first)")
      case None
      with Cons g show ?thesis by (auto split: outcome.splits)
    next
      case (Some ids)
      show ?thesis
      proof (cases "ids = []")
        case True
        with Cons g Some show ?thesis by auto
      next
        case False
        show ?thesis
        proof (cases "expandUncoreGroup grp ids (FindStringSubmatch uncorePattern) (Vendor metadata)")
          case Panic
          with Cons(2) g Some False show ?thesis by simp
        next
          case (Returned r)
          obtain newGroups e where r: "r = (newGroups, e)" by (cases r)
          show ?thesis
          proof (cases e)
            case (Some msg)
            with Cons(2) g \<open>UncoreDeviceIDs metadata (Device first) = Some ids\<close> False Returned r
            show ?thesis by simp
          next
            case None
            from Returned r have "\<forall>h \<in> set newGroups. map Device h = map Device grp"
              by (auto dest: expandUncoreGroup_Device)
            with g \<open>UncoreDeviceIDs metadata (Device first) = Some ids\<close>
            have n: "\<forall>h \<in> set newGroups. \<not> passedThrough metadata h"
              using passedThrough_Device [of _ first others metadata ids] by blast
            from Cons(2) g \<open>UncoreDeviceIDs metadata (Device first) = Some ids\<close> False Returned r None
            obtain more where m: "expandUncoreGroups rest metadata = Returned (more, err)"
              and x: "expanded = newGroups @ more"
              by (auto split: outcome.splits)
            from Cons(1) [OF m] n x show ?thesis by auto
          qed
        qed
      qed
    qed
  qed
qed

lemma armFiles_collectable:
  "armFiles metadata flagScope entries groups err = (groups', err') \<Longrightarrow>
   \<forall>g \<in> set groups. \<forall>event \<in> set g. isCollectableEvent event metadata flagScope \<Longrightarrow>
   \<forall>g \<in> set groups'. \<forall>event \<in> set g. isCollectableEvent event metadata flagScope"
proof (induction entries arbitrary: groups err)
  case Nil
  then show ?case by simp
next
  case (Cons fileEntry rest)
  show ?case
  proof (cases "\<not> IsDir fileEntry \<and> HasSuffix (ToLower (EntryName fileEntry)) ''.json''")
    case False
    with Cons show ?thesis by auto
  next
    case True
    show ?thesis
    proof (cases "Data fileEntry")
      case (ReadFails e)
      with True Cons show ?thesis by auto
    next
      case (UnmarshalFails e)
      with True Cons show ?thesis by auto
    next
      case (Unmarshalled armEvents)
      define cur where
        "cur = filter (\<lambda>event. isCollectableEvent event metadata flagScope) (map armEvent armEvents)"
      have "armFiles metadata flagScope (fileEntry # rest) groups err =
          armFiles metadata flagScope rest (if length cur > 0 then groups @ [cur] else groups) None"
        unfolding cur_def
        by (subst armFiles.simps)
           (simp only: True Unmarshalled if_True FileData.case Let_def simp_thms)
      with Cons(2)
      have run: "armFiles metadata flagScope rest (if length cur > 0 then groups @ [cur] else groups) None
          = (groups', err')" by simp
      have "\<forall>g \<in> set (if length cur > 0 then groups @ [cur] else groups).
          \<forall>event \<in> set g. isCollectableEvent event metadata flagScope"
        using Cons(3) by (auto simp: cur_def)
      from Cons(1) [OF run this] show ?thesis .
    qed
  qed
qed

lemma LoadArmEventGroups_collectable:
  "LoadArmEventGroups path metadata flagScope files = (groups, uncollectable, err) \<Longrightarrow>
   (\<forall>g \<in> set groups. \<forall>event \<in> set g. isCollectableEvent event metadata flagScope) \<and>
   uncollectable = []"
  by (auto simp: LoadArmEventGroups_def split: if_splits sum.splits prod.splits
      dest: armFiles_collectable)

text \<open>
  C3, as the claim states it, fails: the expander rewrites every event of a group
  whose first event is an uncore event, and the rewritten events are not filtered
  again. Here the second event of the group has no device; it is collectable under
  its name \<open>B\<close>, which perf lists, and not under its new name \<open>B.0\<close>.
\<close>

theorem LoadEventGroups_rewritten_not_collectable:
  "LoadEventGroups [] intelMetadata scopeSystem
     (catalog [''cha/event=0x1,umask=0x2,name='A'/,'', ''/cha/event=0x1,umask=0x2,name='B'/;'']) =
   Returned
     ([[\<lparr>Raw = ''uncore_cha_0/event=0x1,umask=0x2,name='A.0'/'', Name = ''A.0'', Device = ''cha'', Description = []\<rparr>,
        \<lparr>Raw = ''uncore_cha_0/event=0x1,umask=0x2,name='B.0'/'', Name = ''B.0'', Device = [], Description = []\<rparr>],
       [\<lparr>Raw = ''uncore_cha_1/event=0x1,umask=0x2,name='A.1'/'', Name = ''A.1'', Device = ''cha'', Description = []\<rparr>,
        \<lparr>Raw = ''uncore_cha_1/event=0x1,umask=0x2,name='B.1'/'', Name = ''B.1'', Device = [], Description = []\<rparr>]],
      [], None) \<and>
   \<not> isCollectableEvent
     \<lparr>Raw = ''uncore_cha_0/event=0x1,umask=0x2,name='B.0'/'', Name = ''B.0'', Device = [], Description = []\<rparr>
     intelMetadata scopeSystem"
  by code_simp

text \<open>
  C3, amended. After a load that returns no error, every event of every returned group
  that the expander did not rewrite (every group of the ARM path; on the x86 path the
  groups whose first event's device is no key of the inventory) satisfies the filter
  under the same metadata and scope, and every name of the uncollectable list is the
  abbreviated name of the event parsed from a data line of the catalog, for which the
  filter was false.
\<close>

theorem LoadEventGroups_collectable:
  assumes "LoadEventGroups path metadata flagScope files = Returned (groups, uncollectable, None)"
  shows "(\<forall>g \<in> set groups.
            Architecture metadata = ''arm64'' \<or> Architecture metadata = ''aarch64'' \<or>
            passedThrough metadata g \<longrightarrow>
            (\<forall>event \<in> set g. isCollectableEvent event metadata flagScope)) \<and>
         (\<forall>n \<in> set uncollectable. rejectedName metadata flagScope (catalogLines files) n)"
proof (cases "Architecture metadata = ''arm64'' \<or> Architecture metadata = ''aarch64''")
  case True
  with assms have "LoadArmEventGroups path metadata flagScope files = (groups, uncollectable, None)"
    by (simp add: LoadEventGroups_def)
  from LoadArmEventGroups_collectable [OF this] show ?thesis by simp
next
  case False
  from assms False obtain ls scanErr where f: "eventFile files = Inr (ls, scanErr)"
    by (auto simp: LoadEventGroups_def split: sum.splits)
  from assms False f obtain scanned where
    s: "scanLines metadata flagScope ls [] [] [] = Returned (scanned, uncollectable, None)"
    and x: "expandUncoreGroups scanned metadata = Returned (groups, None)"
    by (auto simp: LoadEventGroups_def split: outcome.splits option.splits)
  from f have c: "catalogLines files = ls" by (simp add: catalogLines_def)
  from scanLines_collectable [OF s, of ls]
  have a: "\<forall>g \<in> set scanned. \<forall>event \<in> set g. isCollectableEvent event metadata flagScope"
    and b: "\<forall>n \<in> set uncollectable. rejectedName metadata flagScope ls n"
    by simp_all
  from expandUncoreGroups_passedThrough [OF x] a
  have "\<forall>g \<in> set groups. passedThrough metadata g \<longrightarrow>
      (\<forall>event \<in> set g. isCollectableEvent event metadata flagScope)" by blast
  with False b c show ?thesis by simp
qed

theorem LoadEventGroups_collectable_witness:
  "LoadEventGroups [] intelMetadata scopeSystem (catalog [''B;'', ''Z;'']) =
     Returned ([[\<lparr>Raw = ''B'', Name = ''B'', Device = [], Description = []\<rparr>]], [''Z''], None) \<and>
   isCollectableEvent \<lparr>Raw = ''B'', Name = ''B'', Device = [], Description = []\<rparr>
     intelMetadata scopeSystem \<and>
   rejectedName intelMetadata scopeSystem [''B;'', ''Z;''] ''Z''"
proof -
  have h: "LoadEventGroups [] intelMetadata scopeSystem (catalog [''B;'', ''Z;'']) =
      Returned ([[\<lparr>Raw = ''B'', Name = ''B'', Device = [], Description = []\<rparr>]], [''Z''], None)"
    by code_simp
  have p: "passedThrough intelMetadata
      [\<lparr>Raw = ''B'', Name = ''B'', Device = [], Description = []\<rparr>]"
    by (simp add: passedThrough_def intelMetadata_def)
  have c: "catalogLines (catalog [''B;'', ''Z;'']) = [''B;'', ''Z;'']"
    by (simp add: catalogLines_def catalog_def)
  from LoadEventGroups_collectable [OF h] p c h show ?thesis by simp
qed

section \<open>Properties of the ARM loader\<close>

text \<open>
  C2. The claim wants no error from a directory that holds a bad file and a good one,
  wherever the bad one stands in the listing. The loop keeps the error of a bad file in
  the named result \<open>err\<close> until a later file is read. In an override directory whose
  listing, sorted by file name, ends with the bad file, the load returns the group of
  the good file together with the error of the bad one; when the bad file comes first
  in the listing it returns no error.
\<close>

theorem LoadArmEventGroups_last_file_error_returned:
  "lessName (EntryName goodFile) (EntryName lastBadFile) \<and>
   LoadArmEventGroups ''/opt/events'' armMetadata scopeSystem (armDir [goodFile, lastBadFile]) =
     ([[\<lparr>Raw = ''CPU_CYCLES'', Name = ''CPU_CYCLES'', Device = ''cpu'', Description = ''cycles''\<rparr>]],
      [], Some ''unexpected end of JSON input'') \<and>
   lessName (EntryName firstBadFile) (EntryName goodFile) \<and>
   LoadArmEventGroups ''/opt/events'' armMetadata scopeSystem (armDir [firstBadFile, goodFile]) =
     ([[\<lparr>Raw = ''CPU_CYCLES'', Name = ''CPU_CYCLES'', Device = ''cpu'', Description = ''cycles''\<rparr>]],
      [], None)"
  by code_simp

end
